theory Spec2Isabelle
  imports Main
begin

section \<open>Submission records (interface OfflineInterview)\<close>

text \<open>
  The offline queue of \<^verbatim>\<open>src/react-app/utils/offlineStorage.ts\<close>: the record type, the
  IndexedDB object store \<^verbatim>\<open>interviews\<close>, the class \<^verbatim>\<open>OfflineStorageManager\<close> and the
  class \<^verbatim>\<open>SyncManager\<close>.

  Coordinates are IEEE doubles that the queue only copies, so their type is left opaque.
  The survey id is an integer. \<^verbatim>\<open>sync_attempts\<close> is a counter: a natural number that
  the hook starts at 0 and only \<^verbatim>\<open>updateSyncStatus\<close> changes. The field \<^verbatim>\<open>id\<close> is called \<open>iv_id\<close> here, \<open>id\<close> being
  the identity function of HOL.
\<close>

typedecl float64

datatype sync_status = Pending | Syncing | Synced | Error

record response =
  question_id :: int
  response_text :: string

record location =
  latitude :: float64
  longitude :: float64
  accuracy :: float64
  timestamp :: float64

record metadata =
  collected_at :: string
  device_info :: string
  randomization_seed :: string
  sync_status :: sync_status
  sync_attempts :: nat
  last_sync_attempt :: "string option"
  error_message :: "string option"

record offline_interview =
  iv_id :: string
  survey_id :: int
  interviewer_id :: string
  responses :: "response list"
  location :: "location option"
  metadata :: metadata

section \<open>Errors and asynchronous results\<close>

text \<open>
  Every failure of the source is \<^verbatim>\<open>new Error(message)\<close>; the constructors below are the
  messages the source uses, named after the error taxonomy where it has a name for them.
  \<open>message\<close> gives the text (Latin-1 code points for the accented letters), which the drain
  stores in \<^verbatim>\<open>metadata.error_message\<close>. \<open>TypeError\<close> is what the engine throws for
  \<^verbatim>\<open>this.db!.transaction(...)\<close> when \<^verbatim>\<open>this.db\<close> is null; its text differs from
  engine to engine, and \<open>message\<close> gives the beginning of the one of V8.
\<close>

datatype error =
    StoreUnavailable
  | InvalidRecord
  | SaveFailed
  | PendingQueryFailed
  | RecordNotFound
  | UpdateFailed
  | RemoveFailed
  | UploadFailed
  | TypeError

fun message :: "error \<Rightarrow> string" where
  "message StoreUnavailable = ''Erro ao abrir banco de dados offline''"
| "message InvalidRecord = ''Dados da entrevista inv'' @ [CHR 0xE1] @ ''lidos''"
| "message SaveFailed = ''Erro ao salvar entrevista offline''"
| "message PendingQueryFailed = ''Erro ao buscar entrevistas pendentes''"
| "message RecordNotFound = ''Entrevista n'' @ [CHR 0xE3] @ ''o encontrada''"
| "message UpdateFailed = ''Erro ao atualizar status''"
| "message RemoveFailed = ''Erro ao remover entrevista''"
| "message UploadFailed = ''Falha no upload da entrevista''"
| "message TypeError = ''Cannot read properties of null''"

text \<open>
  A promise either resolves with a value, rejects with an error, or is never settled
  (neither \<^verbatim>\<open>resolve\<close> nor \<^verbatim>\<open>reject\<close> is ever called). An asynchronous method is a
  function from the state before to the result and the state after.
\<close>

datatype 'a outcome = Resolved 'a | Rejected error | NeverSettles

type_synonym ('a, 's) task = "'s \<Rightarrow> 'a outcome \<times> 's"

definition reject :: "error \<Rightarrow> ('a, 's) task" where
  "reject err = (\<lambda>s. (Rejected err, s))"

text \<open>\<^verbatim>\<open>const x = await m; f(x)\<close>: a rejection of \<open>m\<close> propagates, and so does its silence.\<close>

definition await :: "('a, 's) task \<Rightarrow> ('a \<Rightarrow> ('b, 's) task) \<Rightarrow> ('b, 's) task" where
  "await m f = (\<lambda>s. case m s of
      (Resolved x, s') \<Rightarrow> f x s'
    | (Rejected err, s') \<Rightarrow> (Rejected err, s')
    | (NeverSettles, s') \<Rightarrow> (NeverSettles, s'))"

text \<open>\<^verbatim>\<open>try { m } catch (error) { h(error) }\<close>.\<close>

definition try_catch :: "('a, 's) task \<Rightarrow> (error \<Rightarrow> ('a, 's) task) \<Rightarrow> ('a, 's) task" where
  "try_catch m h = (\<lambda>s. case m s of
      (Rejected err, s') \<Rightarrow> h err s'
    | (Resolved x, s') \<Rightarrow> (Resolved x, s')
    | (NeverSettles, s') \<Rightarrow> (NeverSettles, s'))"

section \<open>The environment\<close>

text \<open>
  What the code cannot decide by itself: connectivity (\<^verbatim>\<open>navigator.onLine\<close>), the clock
  (\<^verbatim>\<open>new Date().toISOString()\<close>, read once for a whole call), which IndexedDB requests
  fail (their \<^verbatim>\<open>onerror\<close> fires), and what the remote API answers to the two calls of
  an upload: \<^verbatim>\<open>fetch\<close> throws, or answers with \<^verbatim>\<open>ok\<close> false or true. The body of an
  \<^verbatim>\<open>ok\<close> first answer either cannot be used (\<^verbatim>\<open>json()\<close> throws, or it is null and
  reading its id throws) or yields the text that \<^verbatim>\<open>${createdInterview.id}\<close> puts into
  the second URL, which is the text \<^verbatim>\<open>undefined\<close> when the answer has no id.
\<close>

datatype idb_request =
    Open
  | Get string
  | GetAllPending
  | Put offline_interview
  | Delete string

datatype create_reply = CreateThrew | CreateNotOk | CreateBadBody | Created string

datatype fetch_reply = FetchThrew | FetchNotOk | FetchOk

record env =
  online :: bool
  now :: string
  idb_fails :: "idb_request \<Rightarrow> bool"
  create_interview :: "offline_interview \<Rightarrow> create_reply"
  post_responses :: "string \<Rightarrow> offline_interview \<Rightarrow> fetch_reply"

definition no_faults :: "env \<Rightarrow> bool" where
  "no_faults e = (\<forall>r. \<not> idb_fails e r)"

section \<open>The object store \<^verbatim>\<open>interviews\<close> (keyPath \<^verbatim>\<open>id\<close>)\<close>

text \<open>
  The object store is the list of its records; the order of the list stands for the order
  in which the store and its index hand records out. A record's key is its \<^verbatim>\<open>id\<close>
  field. IndexedDB holds one record per key: \<open>store_ok\<close>.
\<close>

type_synonym store = "offline_interview list"

definition store_ok :: "store \<Rightarrow> bool" where
  "store_ok xs = distinct (map iv_id xs)"

definition store_get :: "string \<Rightarrow> store \<Rightarrow> offline_interview option" where
  "store_get k xs = find (\<lambda>iv. iv_id iv = k) xs"

fun store_put :: "offline_interview \<Rightarrow> store \<Rightarrow> store" where
  "store_put v [] = [v]"
| "store_put v (x # xs) = (if iv_id x = iv_id v then v # xs else x # store_put v xs)"

definition store_delete :: "string \<Rightarrow> store \<Rightarrow> store" where
  "store_delete k xs = filter (\<lambda>iv. iv_id iv \<noteq> k) xs"

text \<open>\<^verbatim>\<open>store.index('sync_status').getAll(status)\<close>.\<close>

definition index_getAll :: "sync_status \<Rightarrow> store \<Rightarrow> offline_interview list" where
  "index_getAll st xs = filter (\<lambda>iv. sync_status (metadata iv) = st) xs"

section \<open>class OfflineStorageManager\<close>

text \<open>
  \<open>interviews\<close> is the content of the database, \<open>db\<close> says whether this manager holds an
  open handle (\<^verbatim>\<open>this.db\<close> is not null), \<open>initPromise\<close> whether an open request of this
  manager is in flight (\<^verbatim>\<open>this.initPromise\<close> is not null).

  \<^verbatim>\<open>initialize\<close> is an \<^verbatim>\<open>async\<close> function. With a handle it returns at once. With an open
  in flight it returns \<^verbatim>\<open>this.initPromise\<close>, so the caller waits until the open request
  succeeds (the handle is set) or fails (rejection). Otherwise it starts the open request,
  stores the promise in \<^verbatim>\<open>this.initPromise\<close> and ends without a \<^verbatim>\<open>return\<close>: the caller's
  \<^verbatim>\<open>await\<close> goes on at once, before the open request can have finished, with
  \<^verbatim>\<open>this.db\<close> still null.
\<close>

record storage =
  interviews :: store
  db :: bool
  initPromise :: bool

definition initialize :: "env \<Rightarrow> (unit, 'a storage_scheme) task" where
  "initialize e = (\<lambda>s.
     if db s then (Resolved (), s)
     else if initPromise s then
       (if idb_fails e Open then (Rejected StoreUnavailable, s\<lparr>initPromise := False\<rparr>)
        else (Resolved (), s\<lparr>db := True, initPromise := False\<rparr>))
     else (Resolved (), s\<lparr>initPromise := True\<rparr>))"

text \<open>
  An open request in flight finishes by itself when no call waits for it:
  \<^verbatim>\<open>request.onsuccess\<close> sets the handle, \<^verbatim>\<open>request.onerror\<close> drops the promise.
\<close>

definition open_finishes :: "env \<Rightarrow> 'a storage_scheme \<Rightarrow> 'a storage_scheme" where
  "open_finishes e s =
     (if \<not> db s \<and> initPromise s
      then (if idb_fails e Open then s\<lparr>initPromise := False\<rparr>
            else s\<lparr>db := True, initPromise := False\<rparr>)
      else s)"

text \<open>
  \<^verbatim>\<open>!interview.id || !interview.survey_id || !interview.responses?.length\<close>: the empty
  string, the number 0 and the length 0 are the falsy values of these fields (so is NaN,
  which is no integer and has no place in this model). The write is one \<^verbatim>\<open>put\<close>
  request in its own transaction; when the request fails its \<^verbatim>\<open>onerror\<close> rejects first,
  so the transaction's own message is never the one the caller sees. Every method builds
  its transaction with \<^verbatim>\<open>this.db!.transaction(...)\<close> inside the promise it returns: without
  a handle this throws, and the promise rejects with the \<open>TypeError\<close>.
\<close>

definition invalid :: "offline_interview \<Rightarrow> bool" where
  "invalid interview \<longleftrightarrow>
     iv_id interview = [] \<or> survey_id interview = 0 \<or> length (responses interview) = 0"

definition saveOfflineInterview :: "env \<Rightarrow> offline_interview \<Rightarrow> (unit, 'a storage_scheme) task" where
  "saveOfflineInterview e interview =
     await (initialize e) (\<lambda>_.
       if invalid interview then reject InvalidRecord
       else (\<lambda>s. if \<not> db s then (Rejected TypeError, s)
                 else if idb_fails e (Put interview) then (Rejected SaveFailed, s)
                 else (Resolved (), s\<lparr>interviews := store_put interview (interviews s)\<rparr>)))"

definition getPendingInterviews :: "env \<Rightarrow> nat \<Rightarrow> (offline_interview list, 'a storage_scheme) task" where
  "getPendingInterviews e limit =
     await (initialize e) (\<lambda>_ s.
       if \<not> db s then (Rejected TypeError, s)
       else if idb_fails e GetAllPending then (Rejected PendingQueryFailed, s)
       else (Resolved (take limit (index_getAll Pending (interviews s))), s))"

text \<open>\<^verbatim>\<open>if (errorMessage)\<close>: an absent or empty message is falsy.\<close>

definition truthy :: "string option \<Rightarrow> bool" where
  "truthy m = (case m of None \<Rightarrow> False | Some t \<Rightarrow> t \<noteq> [])"

text \<open>
  \<^verbatim>\<open>x + 1\<close> on a counter held in a double. Below \<open>2^53\<close> the sum is exact. From there
  on the doubles are the multiples of 2, then of 4, and so on, and the sum is rounded to
  the nearest of them, a tie going to the even mantissa: up to \<open>2^54\<close> that is \<open>x\<close> or
  \<open>x + 2\<close>, beyond it \<open>x\<close>.
\<close>

definition plus_one :: "nat \<Rightarrow> nat" where
  "plus_one x =
     (if x < 9007199254740992 then x + 1
      else if x < 18014398509481984 \<and> odd (x div 2) then x + 2
      else x)"

definition stamp :: "env \<Rightarrow> sync_status \<Rightarrow> string option \<Rightarrow> offline_interview \<Rightarrow> offline_interview" where
  "stamp e status errorMessage interview =
     interview\<lparr>metadata := (metadata interview)\<lparr>
       sync_status := status,
       sync_attempts :=
         plus_one (if sync_attempts (metadata interview) = 0 then 0
                   else sync_attempts (metadata interview)),
       last_sync_attempt := Some (now e),
       error_message :=
         (if truthy errorMessage then errorMessage
          else error_message (metadata interview))\<rparr>\<rparr>"

text \<open>
  \<^verbatim>\<open>getRequest.onsuccess\<close> fires also when the key is absent, with the result
  \<^verbatim>\<open>undefined\<close>; the handler's \<^verbatim>\<open>if (interview)\<close> has no \<^verbatim>\<open>else\<close>, so the promise
  is then left unsettled. \<^verbatim>\<open>getRequest.onerror\<close> fires only when the request itself fails.
\<close>

definition updateSyncStatus ::
  "env \<Rightarrow> string \<Rightarrow> sync_status \<Rightarrow> string option \<Rightarrow> (unit, 'a storage_scheme) task" where
  "updateSyncStatus e interviewId status errorMessage =
     await (\<lambda>s. if \<not> db s then initialize e s else (Resolved (), s)) (\<lambda>_ s.
       if \<not> db s then (Rejected TypeError, s)
       else if idb_fails e (Get interviewId) then (Rejected RecordNotFound, s)
       else (case store_get interviewId (interviews s) of
               None \<Rightarrow> (NeverSettles, s)
             | Some interview \<Rightarrow>
                 (let interview' = stamp e status errorMessage interview
                  in if idb_fails e (Put interview') then (Rejected UpdateFailed, s)
                     else (Resolved (), s\<lparr>interviews := store_put interview' (interviews s)\<rparr>))))"

definition removeSyncedInterview :: "env \<Rightarrow> string \<Rightarrow> (unit, 'a storage_scheme) task" where
  "removeSyncedInterview e interviewId =
     await (\<lambda>s. if \<not> db s then initialize e s else (Resolved (), s)) (\<lambda>_ s.
       if \<not> db s then (Rejected TypeError, s)
       else if idb_fails e (Delete interviewId) then (Rejected RemoveFailed, s)
       else (Resolved (), s\<lparr>interviews := store_delete interviewId (interviews s)\<rparr>))"

section \<open>class SyncManager\<close>

text \<open>
  \<open>calls\<close> is not a field of the class: it logs the requests that \<^verbatim>\<open>fetch\<close> has been
  asked to send, so that "no remote call" can be stated. Each entry starts with the id of
  the queued record whose upload sent it, which is not part of the request.
\<close>

datatype remote_call =
    PostInterview string int "location option" string
  | PostResponses string string "response list"

fun call_record :: "remote_call \<Rightarrow> string" where
  "call_record (PostInterview k _ _ _) = k"
| "call_record (PostResponses k _ _) = k"

record sync_manager = storage +
  isSyncing :: bool
  calls :: "remote_call list"

text \<open>
  \<^verbatim>\<open>uploadInterview\<close>: create the interview, then post the responses to the id that came
  back. Every failure, thrown or answered, is the result \<^verbatim>\<open>false\<close>.
\<close>

definition uploadInterview :: "env \<Rightarrow> offline_interview \<Rightarrow> (bool, 'a sync_manager_scheme) task" where
  "uploadInterview e interview = (\<lambda>s.
     let s1 = s\<lparr>calls := calls s @
                [PostInterview (iv_id interview) (survey_id interview) (location interview)
                   (collected_at (metadata interview))]\<rparr>
     in case create_interview e interview of
          CreateThrew \<Rightarrow> (Resolved False, s1)
        | CreateNotOk \<Rightarrow> (Resolved False, s1)
        | CreateBadBody \<Rightarrow> (Resolved False, s1)
        | Created createdId \<Rightarrow>
            (let s2 = s1\<lparr>calls := calls s1 @
                        [PostResponses (iv_id interview) createdId (responses interview)]\<rparr>
             in case post_responses e createdId interview of
                  FetchThrew \<Rightarrow> (Resolved False, s2)
                | FetchNotOk \<Rightarrow> (Resolved False, s2)
                | FetchOk \<Rightarrow> (Resolved True, s2)))"

definition both_calls_succeed :: "env \<Rightarrow> offline_interview \<Rightarrow> bool" where
  "both_calls_succeed e interview =
     (case create_interview e interview of
        Created createdId \<Rightarrow> post_responses e createdId interview = FetchOk
      | _ \<Rightarrow> False)"

text \<open>The locals of one call of \<^verbatim>\<open>syncPendingData\<close>, carried next to the manager.\<close>

record detail =
  d_id :: "string option"
  d_status :: sync_status
  d_error :: "string option"

record drain_state = sync_manager +
  successCount :: nat
  errorCount :: nat
  details :: "detail list"

record sync_result =
  success :: nat
  errors :: nat
  result_details :: "detail list"

text \<open>
  The body of \<^verbatim>\<open>batch.map(async (interview) => ...)\<close> for one record. Whatever is thrown
  in the \<^verbatim>\<open>try\<close> block is an \<^verbatim>\<open>Error\<close>, so the message written is \<^verbatim>\<open>error.message\<close>.
\<close>

definition sync_one :: "env \<Rightarrow> offline_interview \<Rightarrow> (unit, drain_state) task" where
  "sync_one e interview =
     try_catch
       (await (updateSyncStatus e (iv_id interview) Syncing None) (\<lambda>_.
        await (uploadInterview e interview) (\<lambda>success.
          if success then
            await (updateSyncStatus e (iv_id interview) Synced None) (\<lambda>_.
            await (removeSyncedInterview e (iv_id interview)) (\<lambda>_ s.
              (Resolved (), s\<lparr>successCount := successCount s + 1,
                 details := details s @
                   [\<lparr>d_id = Some (iv_id interview), d_status = Synced, d_error = None\<rparr>]\<rparr>)))
          else reject UploadFailed)))
       (\<lambda>error.
          let errorMessage = message error
          in await (updateSyncStatus e (iv_id interview) Error (Some errorMessage)) (\<lambda>_ s.
               (Resolved (), s\<lparr>errorCount := errorCount s + 1,
                  details := details s @
                    [\<lparr>d_id = Some (iv_id interview), d_status = Error,
                      d_error = Some errorMessage\<rparr>]\<rparr>)))"

text \<open>
  \<^verbatim>\<open>await Promise.all(syncPromises)\<close>. The records of a batch are run one after the
  other, in the order of the batch: one of the schedules of the event loop. Each record's
  steps read and write the store under that record's key only. \<^verbatim>\<open>Promise.all\<close> rejects
  when one promise rejects, is never settled when none rejects and one is never settled,
  and resolves otherwise.
\<close>

fun promise_all :: "unit outcome \<Rightarrow> unit outcome \<Rightarrow> unit outcome" where
  "promise_all (Rejected err) _ = Rejected err"
| "promise_all _ (Rejected err) = Rejected err"
| "promise_all NeverSettles _ = NeverSettles"
| "promise_all _ NeverSettles = NeverSettles"
| "promise_all (Resolved _) (Resolved _) = Resolved ()"

fun sync_batch :: "env \<Rightarrow> offline_interview list \<Rightarrow> (unit, drain_state) task" where
  "sync_batch e [] s = (Resolved (), s)"
| "sync_batch e (interview # batch) s =
     (case sync_one e interview s of
        (r, s1) \<Rightarrow> (case sync_batch e batch s1 of (r', s2) \<Rightarrow> (promise_all r r', s2)))"

text \<open>
  \<^verbatim>\<open>for (let i = 0; i < pendingInterviews.length; i += batchSize)\<close> with
  \<^verbatim>\<open>batch = pendingInterviews.slice(i, i + batchSize)\<close>. With \<^verbatim>\<open>batchSize\<close> 0 the index
  never moves and every batch is empty: the loop runs forever without an effect, and the
  promise of the drain is never settled.
\<close>

function sync_batches ::
  "env \<Rightarrow> nat \<Rightarrow> offline_interview list \<Rightarrow> nat \<Rightarrow> (unit, drain_state) task" where
  "sync_batches e batchSize pendingInterviews i s =
     (if i < length pendingInterviews then
        (if batchSize = 0 then (NeverSettles, s)
         else (case sync_batch e (take batchSize (drop i pendingInterviews)) s of
                 (Resolved _, s1) \<Rightarrow> sync_batches e batchSize pendingInterviews (i + batchSize) s1
               | (Rejected err, s1) \<Rightarrow> (Rejected err, s1)
               | (NeverSettles, s1) \<Rightarrow> (NeverSettles, s1)))
      else (Resolved (), s))"
  by pat_completeness auto
termination
  by (relation "measure (\<lambda>(e, batchSize, pendingInterviews, i, s). length pendingInterviews - i)")
    auto

declare sync_batches.simps [simp del]

definition begin_drain :: "sync_manager \<Rightarrow> drain_state" where
  "begin_drain m = \<lparr>interviews = interviews m, db = db m, initPromise = initPromise m,
     isSyncing = True, calls = calls m, successCount = 0, errorCount = 0, details = []\<rparr>"

definition manager_of :: "drain_state \<Rightarrow> sync_manager" where
  "manager_of s = \<lparr>interviews = interviews s, db = db s, initPromise = initPromise s,
     isSyncing = isSyncing s, calls = calls s\<rparr>"

definition result_of :: "drain_state \<Rightarrow> sync_result" where
  "result_of s = \<lparr>success = successCount s, errors = errorCount s, result_details = details s\<rparr>"

definition general_error :: detail where
  "general_error = \<lparr>d_id = None, d_status = Error,
     d_error = Some (''Erro geral no processo de sincroniza'' @ [CHR 0xE7, CHR 0xE3] @ ''o'')\<rparr>"

text \<open>
  \<^verbatim>\<open>syncPendingData\<close>: the guard, then \<^verbatim>\<open>try { ... } catch { ... } finally { ... }\<close>.
  The \<^verbatim>\<open>finally\<close> block runs when the \<^verbatim>\<open>try\<close> block is left, which a promise that is
  never settled does not do. The notification shown at the end changes no state.

  The function below is one drain from its first step to its last, with no step of
  another drain in between. \<^verbatim>\<open>forcSync\<close> lowers the guard whatever its value, so it can
  start a second drain while one is in flight; what two drains that overlap do to each
  other is not described by this function.
\<close>

definition syncPendingData :: "env \<Rightarrow> nat \<Rightarrow> (sync_result, sync_manager) task" where
  "syncPendingData e batchSize m =
     (if isSyncing m \<or> \<not> online e
      then (Resolved \<lparr>success = 0, errors = 0, result_details = []\<rparr>, m)
      else
        (case try_catch
                (await (initialize e) (\<lambda>_.
                 await (getPendingInterviews e 50) (\<lambda>pendingInterviews.
                 sync_batches e batchSize pendingInterviews 0)))
                (\<lambda>error s. (Resolved (), s\<lparr>details := details s @ [general_error]\<rparr>))
                (begin_drain m)
         of (Resolved _, s) \<Rightarrow> (Resolved (result_of s), (manager_of s)\<lparr>isSyncing := False\<rparr>)
          | (Rejected err, s) \<Rightarrow> (Rejected err, (manager_of s)\<lparr>isSyncing := False\<rparr>)
          | (NeverSettles, s) \<Rightarrow> (NeverSettles, manager_of s)))"

definition forcSync :: "env \<Rightarrow> (sync_result, sync_manager) task" where
  "forcSync e m = syncPendingData e 10 (m\<lparr>isSyncing := False\<rparr>)"

text \<open>The scheduler calling \<^verbatim>\<open>syncPendingData\<close> again and again, each time in the environment of that moment.\<close>

fun drains :: "(env \<times> nat) list \<Rightarrow> sync_manager \<Rightarrow> sync_manager" where
  "drains [] m = m"
| "drains ((e, batchSize) # later) m = drains later (snd (syncPendingData e batchSize m))"

section \<open>The scheduling controller (\<^verbatim>\<open>setupAutoSync\<close>, \<^verbatim>\<open>stop\<close>)\<close>

text \<open>
  The function objects of the class: the listener registered for \<^verbatim>\<open>online\<close>, the arrow
  function given to the debounce timer, the idle callback, \<^verbatim>\<open>scheduleSync\<close>, the tick of
  the fallback interval, and the arrow function that \<^verbatim>\<open>stop\<close> builds for
  \<^verbatim>\<open>removeEventListener\<close>. Two function expressions never yield the same object.
\<close>

datatype callback =
    OnlineListener
  | DebounceFire
  | IdleCallback
  | ScheduleSync
  | IntervalTick
  | StopArrow

text \<open>
  The registrations the browser holds for this manager, and the manager's two timer
  fields. A timer is its handle, its callback and whether it repeats. \<open>sync_calls\<close> counts
  the calls of \<^verbatim>\<open>syncPendingData\<close> that the controller has made.
\<close>

record window =
  listeners :: "callback list"
  timers :: "(nat \<times> callback \<times> bool) list"
  idle_callbacks :: "callback list"
  next_handle :: nat
  syncInterval :: "nat option"
  debounceTimer :: "nat option"
  sync_calls :: nat

record controller_env =
  has_requestIdleCallback :: bool
  navigator_onLine :: bool
  manager_isSyncing :: bool

definition setTimeout :: "callback \<Rightarrow> window \<Rightarrow> nat \<times> window" where
  "setTimeout cb w =
     (next_handle w,
      w\<lparr>timers := timers w @ [(next_handle w, cb, False)], next_handle := next_handle w + 1\<rparr>)"

definition setInterval :: "callback \<Rightarrow> window \<Rightarrow> nat \<times> window" where
  "setInterval cb w =
     (next_handle w,
      w\<lparr>timers := timers w @ [(next_handle w, cb, True)], next_handle := next_handle w + 1\<rparr>)"

text \<open>\<^verbatim>\<open>clearTimeout\<close> cancels a timeout or an interval: both share one table of handles.\<close>

definition clearTimeout :: "nat \<Rightarrow> window \<Rightarrow> window" where
  "clearTimeout h w = w\<lparr>timers := filter (\<lambda>t. fst t \<noteq> h) (timers w)\<rparr>"

definition addEventListener :: "callback \<Rightarrow> window \<Rightarrow> window" where
  "addEventListener cb w = w\<lparr>listeners := listeners w @ [cb]\<rparr>"

definition removeEventListener :: "callback \<Rightarrow> window \<Rightarrow> window" where
  "removeEventListener cb w = w\<lparr>listeners := remove1 cb (listeners w)\<rparr>"

definition call_sync :: "window \<Rightarrow> window" where
  "call_sync w = w\<lparr>sync_calls := sync_calls w + 1\<rparr>"

text \<open>What each function does when it is called. A handle is truthy when it is not 0.\<close>

fun run_callback :: "controller_env \<Rightarrow> callback \<Rightarrow> window \<Rightarrow> window" where
  "run_callback c OnlineListener w =
     (let w1 = (case debounceTimer w of
                  Some h \<Rightarrow> if h \<noteq> 0 then clearTimeout h w else w
                | None \<Rightarrow> w)
      in case setTimeout DebounceFire w1 of (h, w2) \<Rightarrow> w2\<lparr>debounceTimer := Some h\<rparr>)"
| "run_callback c DebounceFire w = call_sync w"
| "run_callback c ScheduleSync w =
     (if has_requestIdleCallback c
      then w\<lparr>idle_callbacks := idle_callbacks w @ [IdleCallback]\<rparr>
      else case setInterval IntervalTick w of (h, w1) \<Rightarrow> w1\<lparr>syncInterval := Some h\<rparr>)"
| "run_callback c IdleCallback w =
     (let w1 = (if navigator_onLine c \<and> \<not> manager_isSyncing c then call_sync w else w)
      in case setTimeout ScheduleSync w1 of (h, w2) \<Rightarrow> w2\<lparr>syncInterval := Some h\<rparr>)"
| "run_callback c IntervalTick w =
     (if navigator_onLine c \<and> \<not> manager_isSyncing c then call_sync w else w)"
| "run_callback c StopArrow w = call_sync w"

definition new_window :: window where
  "new_window = \<lparr>listeners = [], timers = [], idle_callbacks = [], next_handle = 1,
     syncInterval = None, debounceTimer = None, sync_calls = 0\<rparr>"

definition setupAutoSync :: "controller_env \<Rightarrow> window \<Rightarrow> window" where
  "setupAutoSync c w = run_callback c ScheduleSync (addEventListener OnlineListener w)"

definition stop :: "window \<Rightarrow> window" where
  "stop w =
     (let w1 = (case syncInterval w of
                  Some h \<Rightarrow> (clearTimeout h w)\<lparr>syncInterval := None\<rparr>
                | None \<Rightarrow> w);
          w2 = (case debounceTimer w1 of
                  Some h \<Rightarrow> if h \<noteq> 0 then (clearTimeout h w1)\<lparr>debounceTimer := None\<rparr> else w1
                | None \<Rightarrow> w1)
      in removeEventListener StopArrow w2)"

text \<open>What the browser can do to the page: fire \<^verbatim>\<open>online\<close>, let a timer expire, run the
  oldest pending idle callback.\<close>

datatype event = OnlineEvent | TimerFires nat | IdleFires

fun dispatch :: "controller_env \<Rightarrow> event \<Rightarrow> window \<Rightarrow> window" where
  "dispatch c OnlineEvent w = fold (run_callback c) (listeners w) w"
| "dispatch c (TimerFires h) w =
     (case find (\<lambda>t. fst t = h) (timers w) of
        None \<Rightarrow> w
      | Some (_, cb, repeating) \<Rightarrow> run_callback c cb (if repeating then w else clearTimeout h w))"
| "dispatch c IdleFires w =
     (case idle_callbacks w of
        [] \<Rightarrow> w
      | cb # waiting \<Rightarrow> run_callback c cb (w\<lparr>idle_callbacks := waiting\<rparr>))"

section \<open>Vocabulary of the statements\<close>

text \<open>
  \<open>untouched K s s'\<close>: from \<open>s\<close> to \<open>s'\<close> only records with a key in \<open>K\<close> were written
  and remote calls were sent only for them, the store kept one record per key, the handle
  stayed open and the guard was not moved.
\<close>

definition untouched :: "string set \<Rightarrow> drain_state \<Rightarrow> drain_state \<Rightarrow> bool" where
  "untouched K s s' \<longleftrightarrow>
     (\<forall>k. k \<notin> K \<longrightarrow> store_get k (interviews s') = store_get k (interviews s)) \<and>
     (\<forall>k. k \<notin> K \<longrightarrow>
        filter (\<lambda>c. call_record c = k) (calls s') = filter (\<lambda>c. call_record c = k) (calls s)) \<and>
     (store_ok (interviews s) \<longrightarrow> store_ok (interviews s')) \<and>
     (db s \<longrightarrow> db s') \<and>
     isSyncing s' = isSyncing s"

text \<open>What a record's slot holds after its upload attempt, and the entry reported for it,
  when every IndexedDB request succeeds.\<close>

definition settled :: "env \<Rightarrow> offline_interview \<Rightarrow> offline_interview option" where
  "settled e iv =
     (if both_calls_succeed e iv then None
      else Some (stamp e Error (Some (message UploadFailed)) (stamp e Syncing None iv)))"

definition detail_of :: "env \<Rightarrow> offline_interview \<Rightarrow> detail" where
  "detail_of e iv =
     (if both_calls_succeed e iv
      then \<lparr>d_id = Some (iv_id iv), d_status = Synced, d_error = None\<rparr>
      else \<lparr>d_id = Some (iv_id iv), d_status = Error, d_error = Some (message UploadFailed)\<rparr>)"

definition drained :: "env \<Rightarrow> offline_interview list \<Rightarrow> drain_state \<Rightarrow> drain_state \<Rightarrow> bool" where
  "drained e xs s s' \<longleftrightarrow>
     db s' \<and>
     details s' = details s @ map (detail_of e) xs \<and>
     successCount s' = successCount s + length (filter (both_calls_succeed e) xs) \<and>
     errorCount s' = errorCount s + length (filter (\<lambda>iv. \<not> both_calls_succeed e iv) xs) \<and>
     (\<forall>iv\<in>set xs. store_get (iv_id iv) (interviews s') = settled e iv)"



text \<open>The drain's state once the database is open.\<close>

definition opened :: "sync_manager \<Rightarrow> drain_state" where
  "opened m =
     (if db m then begin_drain m else (begin_drain m)\<lparr>db := True, initPromise := False\<rparr>)"

text \<open>\<^verbatim>\<open>metadata.errorMessage\<close> is present only on records whose status is \<^verbatim>\<open>error\<close>.\<close>

definition message_only_on_error :: "store \<Rightarrow> bool" where
  "message_only_on_error xs \<longleftrightarrow>
     (\<forall>iv\<in>set xs. error_message (metadata iv) \<noteq> None \<longrightarrow> sync_status (metadata iv) = Error)"

section \<open>Sample data\<close>

definition env_ok :: env where
  "env_ok = \<lparr>online = True, now = ''2024-05-01T10:00:00.000Z'', idb_fails = (\<lambda>_. False),
     create_interview = (\<lambda>_. Created ''1''), post_responses = (\<lambda>_ _. FetchOk)\<rparr>"

text \<open>The remote API creates the interview and answers 500 to the responses.\<close>

definition env_partial :: env where
  "env_partial = \<lparr>online = True, now = ''2024-05-01T10:00:00.000Z'', idb_fails = (\<lambda>_. False),
     create_interview = (\<lambda>_. Created ''1''), post_responses = (\<lambda>_ _. FetchNotOk)\<rparr>"

text \<open>Both remote calls succeed and every delete request of IndexedDB fails.\<close>

definition env_delete_fails :: env where
  "env_delete_fails = \<lparr>online = True, now = ''2024-05-01T10:00:00.000Z'',
     idb_fails = (\<lambda>r. case r of Delete _ \<Rightarrow> True | _ \<Rightarrow> False),
     create_interview = (\<lambda>_. Created ''1''), post_responses = (\<lambda>_ _. FetchOk)\<rparr>"

definition env_offline :: env where
  "env_offline = \<lparr>online = False, now = ''2024-05-01T10:00:00.000Z'', idb_fails = (\<lambda>_. False),
     create_interview = (\<lambda>_. CreateThrew), post_responses = (\<lambda>_ _. FetchThrew)\<rparr>"

text \<open>The metadata that the hook \<^verbatim>\<open>useOfflineStorage\<close> gives a new record.\<close>

definition fresh_metadata :: metadata where
  "fresh_metadata = \<lparr>collected_at = ''2024-05-01T09:00:00.000Z'', device_info = ''test'',
     randomization_seed = ''abc'', sync_status = Pending, sync_attempts = 0,
     last_sync_attempt = None, error_message = None\<rparr>"

definition interview_a :: offline_interview where
  "interview_a = \<lparr>iv_id = ''offline_1_a'', survey_id = 7, interviewer_id = ''current_user'',
     responses = [\<lparr>question_id = 1, response_text = ''yes''\<rparr>], location = None,
     metadata = fresh_metadata\<rparr>"

definition interview_a2 :: offline_interview where
  "interview_a2 = interview_a\<lparr>responses := [\<lparr>question_id = 1, response_text = ''no''\<rparr>]\<rparr>"

definition interview_empty :: offline_interview where
  "interview_empty = interview_a\<lparr>responses := []\<rparr>"

definition interview_failed :: offline_interview where
  "interview_failed = interview_a\<lparr>metadata := fresh_metadata\<lparr>sync_status := Error,
     sync_attempts := 2, last_sync_attempt := Some ''2024-05-01T10:00:00.000Z'',
     error_message := Some ''Falha no upload da entrevista''\<rparr>\<rparr>"

definition interview_stuck :: offline_interview where
  "interview_stuck = interview_a\<lparr>metadata := fresh_metadata\<lparr>sync_status := Syncing,
     sync_attempts := 1, last_sync_attempt := Some ''2024-05-01T10:00:00.000Z''\<rparr>\<rparr>"

definition empty_storage :: storage where
  "empty_storage = \<lparr>interviews = [], db = True, initPromise = False\<rparr>"

text \<open>A storage manager whose database is open, and one that has just been constructed.\<close>

definition open_storage :: "offline_interview list \<Rightarrow> storage" where
  "open_storage xs = \<lparr>interviews = xs, db = True, initPromise = False\<rparr>"

definition new_storage :: "offline_interview list \<Rightarrow> storage" where
  "new_storage xs = \<lparr>interviews = xs, db = False, initPromise = False\<rparr>"

text \<open>A sync manager with an open database and one that has just been constructed.\<close>

definition open_queue :: "offline_interview list \<Rightarrow> sync_manager" where
  "open_queue xs = \<lparr>interviews = xs, db = True, initPromise = False, isSyncing = False,
     calls = []\<rparr>"


definition queue :: "offline_interview list \<Rightarrow> sync_manager" where
  "queue xs = \<lparr>interviews = xs, db = False, initPromise = False, isSyncing = False,
     calls = []\<rparr>"

definition fallback_timers :: controller_env where
  "fallback_timers = \<lparr>has_requestIdleCallback = False, navigator_onLine = True,
     manager_isSyncing = False\<rparr>"

section \<open>The object store\<close>

lemma store_get_put:
  "store_get k (store_put v xs) = (if iv_id v = k then Some v else store_get k xs)"
  by (induction xs) (auto simp: store_get_def)

lemma store_get_delete:
  "store_get k (store_delete k' xs) = (if k = k' then None else store_get k xs)"
  by (induction xs) (auto simp: store_get_def store_delete_def)

lemma keys_store_put: "iv_id ` set (store_put v xs) = insert (iv_id v) (iv_id ` set xs)"
  by (induction xs) auto

lemma store_ok_put: "store_ok xs \<Longrightarrow> store_ok (store_put v xs)"
  unfolding store_ok_def
  by (induction xs) (auto simp: keys_store_put)

lemma store_ok_delete: "store_ok xs \<Longrightarrow> store_ok (store_delete k xs)"
  unfolding store_ok_def store_delete_def by (simp add: distinct_map_filter)

lemma store_get_SomeD: "store_get k xs = Some v \<Longrightarrow> iv_id v = k \<and> v \<in> set xs"
  unfolding store_get_def by (induction xs) (auto split: if_splits)

lemma store_get_member: "store_ok xs \<Longrightarrow> v \<in> set xs \<Longrightarrow> store_get (iv_id v) xs = Some v"
  unfolding store_ok_def store_get_def by (induction xs) (auto)

lemma iv_id_stamp [simp]: "iv_id (stamp e st m v) = iv_id v"
  by (simp add: stamp_def)

lemma untouched_refl: "untouched K s s"
  by (simp add: untouched_def)

lemma untouched_trans: "untouched K s s1 \<Longrightarrow> untouched K s1 s2 \<Longrightarrow> untouched K s s2"
  by (simp add: untouched_def)

lemma untouched_mono: "untouched K s s' \<Longrightarrow> K \<subseteq> K' \<Longrightarrow> untouched K' s s'"
  by (auto simp: untouched_def)

lemma untouched_await:
  assumes "\<And>s. untouched K s (snd (m s))" and "\<And>x s. untouched K s (snd (f x s))"
  shows "untouched K s (snd (await m f s))"
proof (cases "m s")
  case (Pair r s1)
  have 1: "untouched K s s1" using assms(1)[of s] Pair by simp
  show ?thesis
  proof (cases r)
    case (Resolved x)
    have "untouched K s1 (snd (f x s1))" by (rule assms(2))
    with 1 show ?thesis using Pair Resolved by (auto simp: await_def intro: untouched_trans)
  qed (use 1 Pair in \<open>simp_all add: await_def\<close>)
qed

lemma untouched_try_catch:
  assumes "\<And>s. untouched K s (snd (m s))" and "\<And>err s. untouched K s (snd (h err s))"
  shows "untouched K s (snd (try_catch m h s))"
proof (cases "m s")
  case (Pair r s1)
  have 1: "untouched K s s1" using assms(1)[of s] Pair by simp
  show ?thesis
  proof (cases r)
    case (Rejected err)
    have "untouched K s1 (snd (h err s1))" by (rule assms(2))
    with 1 show ?thesis using Pair Rejected by (auto simp: try_catch_def intro: untouched_trans)
  qed (use 1 Pair in \<open>simp_all add: try_catch_def\<close>)
qed

lemma untouched_initialize: "untouched K s (snd (initialize e s))"
  by (simp add: initialize_def untouched_def)

lemma untouched_updateSyncStatus: "untouched {k} s (snd (updateSyncStatus e k st m s))"
  by (auto simp: updateSyncStatus_def await_def initialize_def untouched_def Let_def
        store_get_put store_ok_put dest: store_get_SomeD split: option.splits)

lemma untouched_removeSyncedInterview: "untouched {k} s (snd (removeSyncedInterview e k s))"
  by (auto simp: removeSyncedInterview_def await_def initialize_def untouched_def
        store_get_delete store_ok_delete)

lemma untouched_uploadInterview: "untouched {iv_id iv} s (snd (uploadInterview e iv s))"
  by (simp add: uploadInterview_def untouched_def Let_def split: create_reply.splits fetch_reply.splits)

lemma untouched_if:
  "(c \<Longrightarrow> untouched K s (snd (a s))) \<Longrightarrow> (\<not> c \<Longrightarrow> untouched K s (snd (b s))) \<Longrightarrow>
   untouched K s (snd ((if c then a else b) s))"
  by simp

lemma untouched_reject: "untouched K s (snd (reject err s))"
  by (simp add: reject_def untouched_def)

lemma untouched_sync_one: "untouched {iv_id iv} s (snd (sync_one e iv s))"
  unfolding sync_one_def Let_def
proof (rule untouched_try_catch)
  fix s :: drain_state
  show "untouched {iv_id iv} s (snd (await (updateSyncStatus e (iv_id iv) Syncing None)
          (\<lambda>_. await (uploadInterview e iv)
             (\<lambda>success. if success
                then await (updateSyncStatus e (iv_id iv) Synced None)
                   (\<lambda>_. await (removeSyncedInterview e (iv_id iv))
                     (\<lambda>_ s. (Resolved (), s\<lparr>successCount := successCount s + 1,
                         details := details s @ [\<lparr>d_id = Some (iv_id iv), d_status = Synced, d_error = None\<rparr>]\<rparr>)))
                else reject UploadFailed)) s))"
  proof (rule untouched_await[OF untouched_updateSyncStatus], rule untouched_await[OF untouched_uploadInterview])
    fix success and s :: drain_state
    show "untouched {iv_id iv} s (snd ((if success
                then await (updateSyncStatus e (iv_id iv) Synced None)
                   (\<lambda>_. await (removeSyncedInterview e (iv_id iv))
                     (\<lambda>_ s. (Resolved (), s\<lparr>successCount := successCount s + 1,
                         details := details s @ [\<lparr>d_id = Some (iv_id iv), d_status = Synced, d_error = None\<rparr>]\<rparr>)))
                else reject UploadFailed) s))"
      by (rule untouched_if, rule untouched_await[OF untouched_updateSyncStatus],
          rule untouched_await[OF untouched_removeSyncedInterview])
        (simp_all add: untouched_def reject_def)
  qed
next
  fix err and s :: drain_state
  show "untouched {iv_id iv} s (snd (await (updateSyncStatus e (iv_id iv) Error (Some (message err)))
          (\<lambda>_ s. (Resolved (), s\<lparr>errorCount := errorCount s + 1,
              details := details s @ [\<lparr>d_id = Some (iv_id iv), d_status = Error, d_error = Some (message err)\<rparr>]\<rparr>)) s))"
    by (rule untouched_await[OF untouched_updateSyncStatus]) (simp add: untouched_def)
qed


lemma untouched_sync_batch: "untouched (iv_id ` set ivs) s (snd (sync_batch e ivs s))"
proof (induction ivs arbitrary: s)
  case Nil
  show ?case by (simp add: untouched_refl)
next
  case (Cons iv ivs)
  obtain r s1 where 1: "sync_one e iv s = (r, s1)" by (cases "sync_one e iv s")
  obtain r' s2 where 2: "sync_batch e ivs s1 = (r', s2)" by (cases "sync_batch e ivs s1")
  have "untouched {iv_id iv} s s1" using untouched_sync_one[of iv s e] 1 by simp
  then have a: "untouched (iv_id ` set (iv # ivs)) s s1"
    by (rule untouched_mono) simp
  have "untouched (iv_id ` set ivs) s1 s2" using Cons.IH[of s1] 2 by simp
  then have b: "untouched (iv_id ` set (iv # ivs)) s1 s2"
    by (rule untouched_mono) auto
  from a b have "untouched (iv_id ` set (iv # ivs)) s s2" by (rule untouched_trans)
  then show ?case using 1 2 by simp
qed

lemma untouched_sync_batches:
  "untouched (iv_id ` set (drop i pending)) s (snd (sync_batches e bs pending i s))"
proof (induction e bs pending i s rule: sync_batches.induct)
  case (1 e bs pending i s)

  show ?case
  proof (cases "i < length pending \<and> bs \<noteq> 0")
    case False
    then show ?thesis by (auto simp: untouched_refl sync_batches.simps[of e bs pending i s])
  next
    case True
    let ?batch = "take bs (drop i pending)"
    obtain r s1 where b: "sync_batch e ?batch s = (r, s1)" by (cases "sync_batch e ?batch s")
    have "untouched (iv_id ` set ?batch) s s1" using untouched_sync_batch[of ?batch s e] b by simp
    then have a: "untouched (iv_id ` set (drop i pending)) s s1"
      by (rule untouched_mono) (auto dest: in_set_takeD)
    show ?thesis
    proof (cases r)
      case (Resolved u)
      have "untouched (iv_id ` set (drop (i + bs) pending)) s1
              (snd (sync_batches e bs pending (i + bs) s1))"
        using "1.IH" True b Resolved by simp
      then have "untouched (iv_id ` set (drop i pending)) s1
              (snd (sync_batches e bs pending (i + bs) s1))"
        by (rule untouched_mono) (metis add.commute drop_drop image_mono set_drop_subset)
      with a have "untouched (iv_id ` set (drop i pending)) s
              (snd (sync_batches e bs pending (i + bs) s1))" by (rule untouched_trans)
      then show ?thesis using True b Resolved by (simp add: sync_batches.simps[of e bs pending i s])
    qed (use a True b in \<open>simp_all add: sync_batches.simps[of e bs pending i s]\<close>)
  qed
qed

section \<open>A drain when every IndexedDB request succeeds\<close>

lemma sync_one_no_faults:
  assumes "no_faults e" and "db s" and "store_get (iv_id iv) (interviews s) = Some iv"
  shows "fst (sync_one e iv s) = Resolved ()" and "drained e [iv] s (snd (sync_one e iv s))"
  using assms
  by (auto simp: sync_one_def try_catch_def await_def updateSyncStatus_def
        removeSyncedInterview_def uploadInterview_def both_calls_succeed_def no_faults_def
        Let_def reject_def store_get_put store_get_delete drained_def settled_def detail_of_def
      split: create_reply.splits fetch_reply.splits)


lemma drained_Nil: "db s \<Longrightarrow> drained e [] s s"
  by (simp add: drained_def)

lemma drained_append:
  assumes "drained e xs s s1" and "drained e ys s1 s2"
    and "\<forall>iv\<in>set xs. store_get (iv_id iv) (interviews s2) = store_get (iv_id iv) (interviews s1)"
  shows "drained e (xs @ ys) s s2"
  using assms by (auto simp: drained_def)

lemma sync_batch_no_faults:
  assumes "no_faults e" and "db s" and "distinct (map iv_id ivs)"
    and "\<forall>iv\<in>set ivs. store_get (iv_id iv) (interviews s) = Some iv"
  shows "fst (sync_batch e ivs s) = Resolved () \<and> drained e ivs s (snd (sync_batch e ivs s))"
  using assms(2-4)
proof (induction ivs arbitrary: s)
  case Nil
  then show ?case by (simp add: drained_Nil)
next
  case (Cons iv ivs)
  obtain r s1 where 1: "sync_one e iv s = (r, s1)" by (cases "sync_one e iv s")
  obtain r' s2 where 2: "sync_batch e ivs s1 = (r', s2)" by (cases "sync_batch e ivs s1")
  have here: "store_get (iv_id iv) (interviews s) = Some iv" using Cons.prems(3) by simp
  have r: "r = Resolved ()" and d1: "drained e [iv] s s1"
    using sync_one_no_faults[OF assms(1) Cons.prems(1) here] 1 by simp_all
  have u1: "untouched {iv_id iv} s s1" using untouched_sync_one[of iv s e] 1 by simp
  have present: "\<forall>x\<in>set ivs. store_get (iv_id x) (interviews s1) = Some x"
  proof
    fix x assume x: "x \<in> set ivs"
    then have "iv_id x \<noteq> iv_id iv" using Cons.prems(2) by (auto simp: image_iff)
    then have "store_get (iv_id x) (interviews s1) = store_get (iv_id x) (interviews s)"
      using u1 by (simp add: untouched_def)
    then show "store_get (iv_id x) (interviews s1) = Some x" using Cons.prems(3) x by simp
  qed
  have db1: "db s1" using d1 by (simp add: drained_def)
  have dist: "distinct (map iv_id ivs)" using Cons.prems(2) by simp
  have r': "r' = Resolved ()" and d2: "drained e ivs s1 s2"
    using Cons.IH[OF db1 dist present] 2 by simp_all
  have u2: "untouched (iv_id ` set ivs) s1 s2" using untouched_sync_batch[of ivs s1 e] 2 by simp
  have "iv_id iv \<notin> iv_id ` set ivs" using Cons.prems(2) by simp
  then have keep: "\<forall>x\<in>set [iv]. store_get (iv_id x) (interviews s2) = store_get (iv_id x) (interviews s1)"
    using u2 by (simp add: untouched_def)
  have "drained e ([iv] @ ivs) s s2" using d1 d2 keep by (rule drained_append)
  then show ?case using 1 2 r r' by simp
qed

lemma sync_batches_no_faults:
  assumes "no_faults e" and "0 < bs" and "distinct (map iv_id pending)"
  shows "db s \<Longrightarrow> \<forall>iv\<in>set (drop i pending). store_get (iv_id iv) (interviews s) = Some iv \<Longrightarrow>
         fst (sync_batches e bs pending i s) = Resolved () \<and>
         drained e (drop i pending) s (snd (sync_batches e bs pending i s))"
  using assms
proof (induction e bs pending i s rule: sync_batches.induct)
  case (1 e bs pending i s)
  show ?case
  proof (cases "i < length pending")
    case False
    then show ?thesis using "1.prems"(1)
      by (simp add: drained_Nil sync_batches.simps[of e bs pending i s])
  next
    case True
    let ?xs = "drop i pending"
    let ?batch = "take bs ?xs"
    let ?rest = "drop (i + bs) pending"
    have rest: "?rest = drop bs ?xs" by (simp add: add.commute)
    have split: "?xs = ?batch @ ?rest" unfolding rest by (rule append_take_drop_id[symmetric])
    have dxs: "distinct (map iv_id ?xs)" using "1.prems"(5) by (simp add: drop_map[symmetric] distinct_drop)
    then have dsplit: "distinct (map iv_id ?batch @ map iv_id ?rest)"
      using split by (metis map_append)
    obtain r s1 where b: "sync_batch e ?batch s = (r, s1)" by (cases "sync_batch e ?batch s")
    have pb: "\<forall>iv\<in>set ?batch. store_get (iv_id iv) (interviews s) = Some iv"
      using "1.prems"(2) by (auto dest: in_set_takeD)
    have db_: "distinct (map iv_id ?batch)" using dsplit by simp
    have r: "r = Resolved ()" and d1: "drained e ?batch s s1"
      using sync_batch_no_faults[OF "1.prems"(3) "1.prems"(1) db_ pb] b by simp_all
    have u1: "untouched (iv_id ` set ?batch) s s1"
      using untouched_sync_batch[of ?batch s e] b by simp
    have disj: "iv_id ` set ?batch \<inter> iv_id ` set ?rest = {}" using dsplit by auto
    have present: "\<forall>x\<in>set ?rest. store_get (iv_id x) (interviews s1) = Some x"
    proof
      fix x assume x: "x \<in> set ?rest"
      then have "iv_id x \<notin> iv_id ` set ?batch" using disj by auto
      then have "store_get (iv_id x) (interviews s1) = store_get (iv_id x) (interviews s)"
        using u1 by (simp add: untouched_def)
      moreover have "x \<in> set ?xs" using x split by (metis Un_iff set_append)
      ultimately show "store_get (iv_id x) (interviews s1) = Some x" using "1.prems"(2) by simp
    qed
    have db1: "db s1" using d1 by (simp add: drained_def)
    let ?fin = "sync_batches e bs pending (i + bs) s1"
    have IH: "fst ?fin = Resolved () \<and> drained e ?rest s1 (snd ?fin)"
      using "1.IH"[OF True _ b[symmetric] r db1 present "1.prems"(3,4,5)] "1.prems"(4) by simp
    have u2: "untouched (iv_id ` set ?rest) s1 (snd ?fin)" by (rule untouched_sync_batches)
    have keep: "\<forall>x\<in>set ?batch. store_get (iv_id x) (interviews (snd ?fin)) = store_get (iv_id x) (interviews s1)"
    proof
      fix x assume "x \<in> set ?batch"
      then have "iv_id x \<notin> iv_id ` set ?rest" using disj by auto
      then show "store_get (iv_id x) (interviews (snd ?fin)) = store_get (iv_id x) (interviews s1)"
        using u2 by (simp add: untouched_def)
    qed
    have "drained e (?batch @ ?rest) s (snd ?fin)"
      using d1 IH keep by (blast intro: drained_append)
    then have "drained e ?xs s (snd ?fin)" using split by simp
    moreover have "sync_batches e bs pending i s = ?fin"
      using True "1.prems"(4) b r by (simp add: sync_batches.simps[of e bs pending i s])
    ultimately show ?thesis using IH by simp
  qed
qed

section \<open>The whole of \<^verbatim>\<open>syncPendingData\<close>\<close>

lemma pending_distinct:
  "store_ok xs \<Longrightarrow> distinct (map iv_id (take n (index_getAll Pending xs)))"
  unfolding store_ok_def index_getAll_def
  by (simp add: take_map[symmetric] distinct_map_filter distinct_take)

lemma pending_member:
  "iv \<in> set (take n (index_getAll Pending xs)) \<Longrightarrow>
   iv \<in> set xs \<and> sync_status (metadata iv) = Pending"
  unfolding index_getAll_def by (auto dest: in_set_takeD)

lemma pending_present:
  "store_ok xs \<Longrightarrow> iv \<in> set (take n (index_getAll Pending xs)) \<Longrightarrow>
   store_get (iv_id iv) xs = Some iv"
  using pending_member[of iv n xs] store_get_member[of xs iv] by simp

lemma not_pending_key:
  assumes "store_ok xs" and "store_get k xs = Some v" and "sync_status (metadata v) \<noteq> Pending"
  shows "k \<notin> iv_id ` set (take n (index_getAll Pending xs))"
proof
  assume "k \<in> iv_id ` set (take n (index_getAll Pending xs))"
  then obtain iv where iv: "iv \<in> set (take n (index_getAll Pending xs))" and k: "k = iv_id iv"
    by auto
  have "store_get k xs = Some iv" using pending_present[OF assms(1) iv] k by simp
  then have "iv = v" using assms(2) by simp
  then show False using pending_member[OF iv] assms(3) by simp
qed

lemma opened_simps [simp]:
  "db (opened m)" "interviews (opened m) = interviews m" "calls (opened m) = calls m"
  "isSyncing (opened m)" "details (opened m) = []" "successCount (opened m) = 0"
  "errorCount (opened m) = 0"
  by (simp_all add: opened_def begin_drain_def)

lemma syncPendingData_refused:
  "isSyncing m \<or> \<not> online e \<Longrightarrow>
   syncPendingData e bs m = (Resolved \<lparr>success = 0, errors = 0, result_details = []\<rparr>, m)"
  by (simp add: syncPendingData_def)

lemma syncPendingData_store_fault:
  assumes "\<not> isSyncing m" and "online e"
    and "(\<not> db m \<and> idb_fails e Open) \<or> idb_fails e GetAllPending"
  shows "interviews (snd (syncPendingData e bs m)) = interviews m"
    and "calls (snd (syncPendingData e bs m)) = calls m"
    and "fst (syncPendingData e bs m) =
           Resolved \<lparr>success = 0, errors = 0, result_details = [general_error]\<rparr>"
  using assms
  by (auto simp: syncPendingData_def try_catch_def await_def initialize_def
        getPendingInterviews_def begin_drain_def manager_of_def result_of_def)

lemma drain_try_opened:
  assumes "db m \<or> \<not> idb_fails e Open" and "\<not> idb_fails e GetAllPending"
  shows "await (initialize e) (\<lambda>_.
           await (getPendingInterviews e 50) (\<lambda>pendingInterviews.
           sync_batches e bs pendingInterviews 0)) (begin_drain m) =
         sync_batches e bs (take 50 (index_getAll Pending (interviews m))) 0 (opened m)"
proof -
  have o: "db (opened m)" "interviews (opened m) = interviews m"
    by simp_all
  have g: "getPendingInterviews e 50 (opened m) =
      (Resolved (take 50 (index_getAll Pending (interviews m))), opened m)"
    using assms(2) o by (simp add: getPendingInterviews_def await_def initialize_def)
  show ?thesis
  proof (cases "db m")
    case True
    then have "initialize e (begin_drain m) = (Resolved (), opened m)"
      by (simp add: initialize_def begin_drain_def opened_def)
    then show ?thesis by (simp add: await_def g)
  next
    case False
    then have nf: "\<not> idb_fails e Open" using assms(1) by simp
    show ?thesis
    proof (cases "initPromise m")
      case True
      then have "initialize e (begin_drain m) = (Resolved (), opened m)"
        using False nf by (simp add: initialize_def begin_drain_def opened_def)
      then show ?thesis by (simp add: await_def g)
    next
      case np: False
      let ?s = "(begin_drain m)\<lparr>initPromise := True\<rparr>"
      have i: "initialize e (begin_drain m) = (Resolved (), ?s)"
        using False np by (simp add: initialize_def begin_drain_def)
      have i2: "initialize e ?s = (Resolved (), opened m)"
        using False nf by (simp add: initialize_def begin_drain_def opened_def)
      have g2: "getPendingInterviews e 50 ?s =
          (Resolved (take 50 (index_getAll Pending (interviews m))), opened m)"
        using assms(2) o i2 by (simp add: getPendingInterviews_def await_def)
      show ?thesis by (simp add: await_def i g2)
    qed
  qed
qed

lemma syncPendingData_run:
  assumes "\<not> isSyncing m" and "online e" and "db m \<or> \<not> idb_fails e Open"
    and "\<not> idb_fails e GetAllPending"
    and "sync_batches e bs (take 50 (index_getAll Pending (interviews m))) 0 (opened m) = (r, s)"
  shows "syncPendingData e bs m =
     (case r of
        Resolved _ \<Rightarrow> (Resolved (result_of s), (manager_of s)\<lparr>isSyncing := False\<rparr>)
      | Rejected err \<Rightarrow>
          (Resolved (result_of (s\<lparr>details := details s @ [general_error]\<rparr>)),
           (manager_of (s\<lparr>details := details s @ [general_error]\<rparr>))\<lparr>isSyncing := False\<rparr>)
      | NeverSettles \<Rightarrow> (NeverSettles, manager_of s))"
proof -
  have "syncPendingData e bs m =
    (case try_catch (sync_batches e bs (take 50 (index_getAll Pending (interviews m))) 0)
            (\<lambda>error s. (Resolved (), s\<lparr>details := details s @ [general_error]\<rparr>)) (opened m)
     of (Resolved _, s) \<Rightarrow> (Resolved (result_of s), (manager_of s)\<lparr>isSyncing := False\<rparr>)
      | (Rejected err, s) \<Rightarrow> (Rejected err, (manager_of s)\<lparr>isSyncing := False\<rparr>)
      | (NeverSettles, s) \<Rightarrow> (NeverSettles, manager_of s))"
    using assms(1,2) drain_try_opened[OF assms(3,4), of bs]
    by (simp add: syncPendingData_def try_catch_def)
  then show ?thesis using assms(5) by (cases r) (simp_all add: try_catch_def)
qed

lemma interviews_after_run:
  assumes "\<not> isSyncing m" and "online e" and "db m \<or> \<not> idb_fails e Open"
    and "\<not> idb_fails e GetAllPending"
  shows "interviews (snd (syncPendingData e bs m)) =
         interviews (snd (sync_batches e bs (take 50 (index_getAll Pending (interviews m))) 0 (opened m)))"
proof -
  obtain r s where rs: "sync_batches e bs (take 50 (index_getAll Pending (interviews m))) 0 (opened m) = (r, s)"
    by (cases "sync_batches e bs (take 50 (index_getAll Pending (interviews m))) 0 (opened m)")
  show ?thesis unfolding syncPendingData_run[OF assms rs] rs
    by (cases r) (simp_all add: manager_of_def)
qed

lemma calls_after_run:
  assumes "\<not> isSyncing m" and "online e" and "db m \<or> \<not> idb_fails e Open"
    and "\<not> idb_fails e GetAllPending"
  shows "calls (snd (syncPendingData e bs m)) =
         calls (snd (sync_batches e bs (take 50 (index_getAll Pending (interviews m))) 0 (opened m)))"
proof -
  obtain r s where rs: "sync_batches e bs (take 50 (index_getAll Pending (interviews m))) 0 (opened m) = (r, s)"
    by (cases "sync_batches e bs (take 50 (index_getAll Pending (interviews m))) 0 (opened m)")
  show ?thesis unfolding syncPendingData_run[OF assms rs] rs
    by (cases r) (simp_all add: manager_of_def)
qed

lemma syncPendingData_keeps:
  assumes "store_ok (interviews m)" and "store_get k (interviews m) = Some v"
    and "sync_status (metadata v) \<noteq> Pending"
  shows "store_get k (interviews (snd (syncPendingData e bs m))) = Some v"
    and "filter (\<lambda>c. call_record c = k) (calls (snd (syncPendingData e bs m)))
         = filter (\<lambda>c. call_record c = k) (calls m)"
proof -
  have "store_get k (interviews (snd (syncPendingData e bs m))) = Some v \<and>
        filter (\<lambda>c. call_record c = k) (calls (snd (syncPendingData e bs m)))
         = filter (\<lambda>c. call_record c = k) (calls m)"
  proof (cases "isSyncing m \<or> \<not> online e")
    case True
    then show ?thesis using assms(2) by (simp add: syncPendingData_refused)
  next
    case go: False
    show ?thesis
    proof (cases "(\<not> db m \<and> idb_fails e Open) \<or> idb_fails e GetAllPending")
      case True
      then show ?thesis
        using syncPendingData_store_fault(1,2)[of m e bs] go assms(2) by simp
    next
      case False
      let ?pend = "take 50 (index_getAll Pending (interviews m))"
      let ?fin = "snd (sync_batches e bs ?pend 0 (opened m))"
      have i: "interviews (snd (syncPendingData e bs m)) = interviews ?fin"
        using interviews_after_run[of m e bs] go False by blast
      have c: "calls (snd (syncPendingData e bs m)) = calls ?fin"
        using calls_after_run[of m e bs] go False by blast
      have "untouched (iv_id ` set (drop 0 ?pend)) (opened m) ?fin"
        by (rule untouched_sync_batches)
      moreover have "k \<notin> iv_id ` set (drop 0 ?pend)"
        using not_pending_key[OF assms] by simp
      ultimately have "store_get k (interviews ?fin) = store_get k (interviews (opened m))"
        and "filter (\<lambda>c. call_record c = k) (calls ?fin)
             = filter (\<lambda>c. call_record c = k) (calls (opened m))"
        by (simp_all add: untouched_def)
      then show ?thesis using i c assms(2) by simp
    qed
  qed
  then show "store_get k (interviews (snd (syncPendingData e bs m))) = Some v"
    and "filter (\<lambda>c. call_record c = k) (calls (snd (syncPendingData e bs m)))
         = filter (\<lambda>c. call_record c = k) (calls m)"
    by simp_all
qed

lemma syncPendingData_store_ok:
  assumes "store_ok (interviews m)"
  shows "store_ok (interviews (snd (syncPendingData e bs m)))"
proof (cases "isSyncing m \<or> \<not> online e")
  case True
  then show ?thesis using assms by (simp add: syncPendingData_refused)
next
  case go: False
  show ?thesis
  proof (cases "(\<not> db m \<and> idb_fails e Open) \<or> idb_fails e GetAllPending")
    case True
    then show ?thesis using syncPendingData_store_fault(1)[of m e bs] go assms by simp
  next
    case False
    let ?pend = "take 50 (index_getAll Pending (interviews m))"
    let ?fin = "snd (sync_batches e bs ?pend 0 (opened m))"
    have i: "interviews (snd (syncPendingData e bs m)) = interviews ?fin"
      using interviews_after_run[of m e bs] go False by blast
    have "untouched (iv_id ` set (drop 0 ?pend)) (opened m) ?fin"
      by (rule untouched_sync_batches)
    then have "store_ok (interviews ?fin)"
      using assms by (simp add: untouched_def)
    then show ?thesis using i by simp
  qed
qed

lemma syncPendingData_no_faults:
  assumes "no_faults e" and "store_ok (interviews m)" and "\<not> isSyncing m" and "online e"
    and "0 < bs"
  defines "pend \<equiv> take 50 (index_getAll Pending (interviews m))"
  shows "fst (syncPendingData e bs m) =
           Resolved \<lparr>success = length (filter (both_calls_succeed e) pend),
             errors = length (filter (\<lambda>iv. \<not> both_calls_succeed e iv) pend),
             result_details = map (detail_of e) pend\<rparr>"
    and "\<forall>iv\<in>set pend. store_get (iv_id iv) (interviews (snd (syncPendingData e bs m))) = settled e iv"
    and "\<not> isSyncing (snd (syncPendingData e bs m))"
proof -
  let ?run = "sync_batches e bs pend 0 (opened m)"
  have nf: "db m \<or> \<not> idb_fails e Open" "\<not> idb_fails e GetAllPending"
    using assms(1) by (simp_all add: no_faults_def)
  have present: "\<forall>iv\<in>set (drop 0 pend). store_get (iv_id iv) (interviews (opened m)) = Some iv"
    using pending_present[OF assms(2)] by (simp add: pend_def)
  have "db (opened m)" by simp
  have dist: "distinct (map iv_id pend)" unfolding pend_def by (rule pending_distinct[OF assms(2)])
  have "fst ?run = Resolved () \<and> drained e (drop 0 pend) (opened m) (snd ?run)"
    by (rule sync_batches_no_faults[OF assms(1) assms(5) dist \<open>db (opened m)\<close> present])
  then have r: "fst ?run = Resolved ()" and d: "drained e pend (opened m) (snd ?run)"
    by simp_all
  obtain s where run: "?run = (Resolved (), s)" using r by (cases ?run) simp
  have eq: "syncPendingData e bs m = (Resolved (result_of s), (manager_of s)\<lparr>isSyncing := False\<rparr>)"
    using syncPendingData_run[OF assms(3,4) nf run[unfolded pend_def]] by simp
  have d': "drained e pend (opened m) s" using d run by simp
  show "fst (syncPendingData e bs m) =
           Resolved \<lparr>success = length (filter (both_calls_succeed e) pend),
             errors = length (filter (\<lambda>iv. \<not> both_calls_succeed e iv) pend),
             result_details = map (detail_of e) pend\<rparr>"
    using d' by (simp add: eq result_of_def drained_def)
  show "\<forall>iv\<in>set pend. store_get (iv_id iv) (interviews (snd (syncPendingData e bs m))) = settled e iv"
    using d' by (simp add: eq manager_of_def drained_def)
  show "\<not> isSyncing (snd (syncPendingData e bs m))" by (simp add: eq)
qed

lemma store_get_SomeD2: "store_get k xs = Some v \<Longrightarrow> iv_id v = k"
  by (simp add: store_get_SomeD)

lemma set_store_put: "set (store_put v xs) \<subseteq> insert v (set xs)"
  by (induction xs) auto

lemma filter_key_absent: "k \<notin> iv_id ` set xs \<Longrightarrow> filter (\<lambda>x. iv_id x = k) xs = []"
  by (induction xs) auto

lemma filter_store_put:
  "store_ok xs \<Longrightarrow> filter (\<lambda>x. iv_id x = iv_id v) (store_put v xs) = [v]"
  unfolding store_ok_def
  by (induction xs) (auto simp: filter_key_absent)

lemma store_put_put: "iv_id v1 = iv_id v2 \<Longrightarrow> store_put v2 (store_put v1 xs) = store_put v2 xs"
  by (induction xs) auto

lemmas sample_defs = env_ok_def env_partial_def env_offline_def env_delete_fails_def
  fresh_metadata_def interview_a_def interview_a2_def interview_empty_def
  interview_failed_def interview_stuck_def empty_storage_def open_storage_def
  new_storage_def queue_def open_queue_def

lemmas storage_defs = initialize_def saveOfflineInterview_def getPendingInterviews_def
  updateSyncStatus_def removeSyncedInterview_def await_def try_catch_def reject_def
  store_get_def store_delete_def index_getAll_def stamp_def plus_one_def truthy_def
  invalid_def

lemmas drain_defs = syncPendingData_def sync_one_def uploadInterview_def begin_drain_def
  manager_of_def result_of_def sync_batches.simps Let_def

lemma drain_partial_a:
  "syncPendingData env_partial 10 (queue [interview_a]) =
     (Resolved \<lparr>success = 0, errors = 1, result_details =
        [\<lparr>d_id = Some ''offline_1_a'', d_status = Error,
          d_error = Some ''Falha no upload da entrevista''\<rparr>]\<rparr>,
      \<lparr>interviews = [interview_failed], db = True, initPromise = False, isSyncing = False,
        calls = [PostInterview ''offline_1_a'' 7 None ''2024-05-01T09:00:00.000Z'',
                 PostResponses ''offline_1_a'' ''1''
                   [\<lparr>question_id = 1, response_text = ''yes''\<rparr>]]\<rparr>)"
  by (simp add: sample_defs storage_defs drain_defs)



section \<open>The storage manager\<close>

lemma updateSyncStatus_absent_not_settled:
  "store_get k (interviews s) = None \<Longrightarrow> db s \<Longrightarrow> \<not> idb_fails e (Get k) \<Longrightarrow>
   updateSyncStatus e k status errorMessage s = (NeverSettles, s)"
  by (simp add: updateSyncStatus_def await_def)

text \<open>
  Claim C2. For an id absent from the store, \<^verbatim>\<open>updateSyncStatus\<close> should fail with
  \<^verbatim>\<open>RecordNotFound\<close>. On the code the promise is never settled: the lookup of a missing
  key succeeds with \<^verbatim>\<open>undefined\<close>, and the rejection with the not-found message sits in
  \<^verbatim>\<open>getRequest.onerror\<close>, which a missing key does not reach. Evaluated on the empty store:
\<close>

theorem updateSyncStatus_absent_id_never_settles:
  "updateSyncStatus env_ok ''missing'' Syncing None empty_storage = (NeverSettles, empty_storage)"
  by (simp add: sample_defs storage_defs)

text \<open>
  What \<^verbatim>\<open>saveOfflineInterview\<close> does, by the state of the manager. An invalid record never
  changes the store, and is refused as invalid unless an open request in flight fails
  first. A valid record is written when the handle is there. On a manager without a handle
  and without an open request in flight, \<^verbatim>\<open>initialize\<close> starts the request and does not
  wait for it, and the write throws.
\<close>

lemma saveOfflineInterview_invalid:
  assumes "invalid interview"
  shows "interviews (snd (saveOfflineInterview e interview s)) = interviews s"
    and "db s \<or> \<not> initPromise s \<or> \<not> idb_fails e Open \<Longrightarrow>
         fst (saveOfflineInterview e interview s) = Rejected InvalidRecord"
  using assms by (auto simp: saveOfflineInterview_def await_def initialize_def reject_def)

lemma saveOfflineInterview_open:
  assumes "db s" and "\<not> invalid interview" and "\<not> idb_fails e (Put interview)"
  shows "saveOfflineInterview e interview s
         = (Resolved (), s\<lparr>interviews := store_put interview (interviews s)\<rparr>)"
  using assms by (simp add: saveOfflineInterview_def await_def initialize_def)

lemma saveOfflineInterview_new:
  assumes "\<not> db s" and "\<not> initPromise s" and "\<not> invalid interview"
  shows "saveOfflineInterview e interview s = (Rejected TypeError, s\<lparr>initPromise := True\<rparr>)"
  using assms by (simp add: saveOfflineInterview_def await_def initialize_def)

lemma saveOfflineInterview_after_open:
  assumes "\<not> db s" and "\<not> initPromise s" and "\<not> invalid interview"
    and "\<not> idb_fails e Open" and "\<not> idb_fails e (Put interview)"
  shows "fst (saveOfflineInterview e interview
           (open_finishes e (snd (saveOfflineInterview e interview s)))) = Resolved ()"
  using assms
  by (simp add: saveOfflineInterview_def await_def initialize_def open_finishes_def)

text \<open>
  Claim C6 says that an invalid record is refused with \<^verbatim>\<open>InvalidRecord\<close>, the store
  unchanged, and that every valid record is saved. The first holds (see above). The second
  fails on a manager that has just been constructed: the valid record \<open>interview_a\<close> is
  rejected with a \<open>TypeError\<close> and nothing is stored, because \<^verbatim>\<open>initialize\<close> does not
  return the promise of the open request that it has just started.
\<close>

theorem saveOfflineInterview_fails_on_new_manager:
  "\<not> invalid interview_a
   \<and> saveOfflineInterview env_ok interview_a (new_storage [])
       = (Rejected TypeError, (new_storage [])\<lparr>initPromise := True\<rparr>)
   \<and> saveOfflineInterview env_ok interview_a (open_storage [])
       = (Resolved (), open_storage [interview_a])"
  by (simp add: sample_defs storage_defs)

lemma saveOfflineInterview_second:
  assumes "db s \<or> \<not> idb_fails e Open" and "\<not> invalid second"
    and "\<not> idb_fails e (Put second)"
  shows "fst (saveOfflineInterview e second (snd (saveOfflineInterview e first s))) = Resolved ()"
    and "interviews (snd (saveOfflineInterview e second (snd (saveOfflineInterview e first s))))
         = store_put second (interviews (snd (saveOfflineInterview e first s)))"
  using assms
  by (auto simp: saveOfflineInterview_def await_def initialize_def reject_def)

lemma saveOfflineInterview_first:
  "interviews (snd (saveOfflineInterview e first s)) = interviews s \<or>
   interviews (snd (saveOfflineInterview e first s)) = store_put first (interviews s)"
  by (auto simp: saveOfflineInterview_def await_def initialize_def reject_def)

text \<open>
  Claim C8. Two saves with the same id, one after the other, whatever becomes of the first:
  when the database is open or opens, and the second record is valid and its write request
  succeeds, the second save succeeds and leaves exactly one record under that id, the
  second one; the store is the old one with that one record put in. On an open database
  the first save of a valid record, its request succeeding, had stored the first record.
\<close>

theorem save_twice_keeps_one_record:
  assumes "store_ok (interviews s)"
    and "db s \<or> \<not> idb_fails e Open"
    and "\<not> invalid second" and "iv_id first = iv_id second"
    and "\<not> idb_fails e (Put second)"
  shows "fst (saveOfflineInterview e second (snd (saveOfflineInterview e first s))) = Resolved ()
       \<and> filter (\<lambda>iv. iv_id iv = iv_id second)
           (interviews (snd (saveOfflineInterview e second (snd (saveOfflineInterview e first s)))))
         = [second]
       \<and> interviews (snd (saveOfflineInterview e second (snd (saveOfflineInterview e first s))))
         = store_put second (interviews s)
       \<and> (db s \<and> \<not> invalid first \<and> \<not> idb_fails e (Put first) \<longrightarrow>
            fst (saveOfflineInterview e first s) = Resolved () \<and>
            store_get (iv_id first) (interviews (snd (saveOfflineInterview e first s)))
              = Some first)"
proof -
  let ?s1 = "snd (saveOfflineInterview e first s)"
  let ?s2 = "snd (saveOfflineInterview e second ?s1)"
  have r: "fst (saveOfflineInterview e second ?s1) = Resolved ()"
    and i2: "interviews ?s2 = store_put second (interviews ?s1)"
    using saveOfflineInterview_second[OF assms(2,3,5)] by simp_all
  have i: "interviews ?s2 = store_put second (interviews s)"
    using saveOfflineInterview_first[of e first s] store_put_put[OF assms(4), of "interviews s"]
    by (auto simp: i2)
  have f: "filter (\<lambda>iv. iv_id iv = iv_id second) (interviews ?s2) = [second]"
    using filter_store_put[OF assms(1), of second] by (simp add: i)
  have "db s \<and> \<not> invalid first \<and> \<not> idb_fails e (Put first) \<longrightarrow>
        fst (saveOfflineInterview e first s) = Resolved () \<and>
        store_get (iv_id first) (interviews ?s1) = Some first"
    by (simp add: saveOfflineInterview_open store_get_put)
  with r i f show ?thesis by simp
qed

theorem save_twice_keeps_one_record_witness:
  "store_ok (interviews (open_storage [])) \<and> db (open_storage []) \<and>
   \<not> invalid interview_a \<and> \<not> invalid interview_a2 \<and>
   iv_id interview_a = iv_id interview_a2 \<and>
   \<not> idb_fails env_ok (Put interview_a) \<and> \<not> idb_fails env_ok (Put interview_a2) \<and>
   fst (saveOfflineInterview env_ok interview_a (open_storage [])) = Resolved () \<and>
   fst (saveOfflineInterview env_ok interview_a2
       (snd (saveOfflineInterview env_ok interview_a (open_storage [])))) = Resolved () \<and>
   interviews (snd (saveOfflineInterview env_ok interview_a2
       (snd (saveOfflineInterview env_ok interview_a (open_storage []))))) = [interview_a2]"
  using save_twice_keeps_one_record [of "open_storage []" env_ok interview_a2 interview_a]
  by (simp add: sample_defs storage_defs store_ok_def)

text \<open>
  Claim C7 says that \<^verbatim>\<open>updateSyncStatus\<close> clears \<^verbatim>\<open>errorMessage\<close> when it moves a record
  to a status other than \<^verbatim>\<open>error\<close> without a message. It does not: a failed record set
  back to \<^verbatim>\<open>pending\<close> keeps its message.
\<close>

theorem updateSyncStatus_keeps_old_message:
  "map (sync_status \<circ> metadata)
     (interviews (snd (updateSyncStatus env_ok ''offline_1_a'' Pending None
        (open_storage [interview_failed])))) = [Pending]
   \<and> map (error_message \<circ> metadata)
     (interviews (snd (updateSyncStatus env_ok ''offline_1_a'' Pending None
        (open_storage [interview_failed])))) = [Some ''Falha no upload da entrevista'']"
  by (simp add: sample_defs storage_defs)

lemma message_only_on_error_put:
  "message_only_on_error xs \<Longrightarrow>
   (error_message (metadata v) \<noteq> None \<Longrightarrow> sync_status (metadata v) = Error) \<Longrightarrow>
   message_only_on_error (store_put v xs)"
  unfolding message_only_on_error_def using set_store_put[of v xs] by blast

text \<open>
  Claim C7, amended. A successful \<^verbatim>\<open>updateSyncStatus\<close> stores the message it is given and
  otherwise leaves the stored one as it was: it never clears it. So "a message only on
  records in error" is kept by a call that sets the status \<^verbatim>\<open>error\<close>, or that brings no
  message to a record that has none, and by no other call on a record with a message.
\<close>

theorem updateSyncStatus_sets_never_clears:
  assumes "store_get k (interviews s) = Some iv"
    and "fst (updateSyncStatus e k status errorMessage s) = Resolved ()"
  shows "map_option (error_message \<circ> metadata)
           (store_get k (interviews (snd (updateSyncStatus e k status errorMessage s))))
         = Some (if truthy errorMessage then errorMessage else error_message (metadata iv))
       \<and> (message_only_on_error (interviews s) \<and>
          (status = Error \<or> (error_message (metadata iv) = None \<and> \<not> truthy errorMessage))
          \<longrightarrow> message_only_on_error (interviews (snd (updateSyncStatus e k status errorMessage s))))
       \<and> (status \<noteq> Error \<and> (truthy errorMessage \<or> error_message (metadata iv) \<noteq> None)
          \<longrightarrow> \<not> message_only_on_error
                 (interviews (snd (updateSyncStatus e k status errorMessage s))))"
proof -
  have k: "iv_id iv = k" using assms(1) by (rule store_get_SomeD2)
  let ?v = "stamp e status errorMessage iv"
  have eq: "interviews (snd (updateSyncStatus e k status errorMessage s))
      = store_put ?v (interviews s)"
    using assms
    by (auto simp: updateSyncStatus_def await_def initialize_def Let_def split: if_splits)
  have 1: "map_option (error_message \<circ> metadata) (store_get k (store_put ?v (interviews s)))
      = Some (if truthy errorMessage then errorMessage else error_message (metadata iv))"
    by (simp add: store_get_put k) (simp add: stamp_def)
  have 2: "message_only_on_error (store_put ?v (interviews s))"
    if "message_only_on_error (interviews s)"
      and "status = Error \<or> (error_message (metadata iv) = None \<and> \<not> truthy errorMessage)"
    using that by (intro message_only_on_error_put) (auto simp: stamp_def)
  have 3: "\<not> message_only_on_error (store_put ?v (interviews s))"
    if "status \<noteq> Error" and "truthy errorMessage \<or> error_message (metadata iv) \<noteq> None"
  proof
    assume m: "message_only_on_error (store_put ?v (interviews s))"
    have "store_get k (store_put ?v (interviews s)) = Some ?v" by (simp add: store_get_put k)
    then have "?v \<in> set (store_put ?v (interviews s))" by (simp add: store_get_SomeD)
    with m have "error_message (metadata ?v) \<noteq> None \<longrightarrow> sync_status (metadata ?v) = Error"
      by (simp add: message_only_on_error_def)
    then show False using that by (auto simp: stamp_def truthy_def split: option.splits if_splits)
  qed
  from 1 2 3 show ?thesis unfolding eq by blast
qed

theorem updateSyncStatus_sets_never_clears_witness:
  "store_get ''offline_1_a'' (interviews (open_storage [interview_a])) = Some interview_a \<and>
   fst (updateSyncStatus env_ok ''offline_1_a'' Error (Some ''x'') (open_storage [interview_a]))
     = Resolved () \<and>
   message_only_on_error (interviews (open_storage [interview_a])) \<and>
   map_option (error_message \<circ> metadata) (store_get ''offline_1_a'' (interviews (snd
     (updateSyncStatus env_ok ''offline_1_a'' Error (Some ''x'') (open_storage [interview_a])))))
     = Some (Some ''x'') \<and>
   message_only_on_error (interviews (snd
     (updateSyncStatus env_ok ''offline_1_a'' Error (Some ''x'') (open_storage [interview_a])))) \<and>
   store_get ''offline_1_a'' (interviews (open_storage [interview_failed])) = Some interview_failed \<and>
   fst (updateSyncStatus env_ok ''offline_1_a'' Syncing None (open_storage [interview_failed]))
     = Resolved () \<and>
   error_message (metadata interview_failed) \<noteq> None \<and>
   \<not> message_only_on_error (interviews (snd
     (updateSyncStatus env_ok ''offline_1_a'' Syncing None (open_storage [interview_failed]))))"
  using updateSyncStatus_sets_never_clears [of "''offline_1_a''" "open_storage [interview_a]"
      interview_a env_ok Error "Some ''x''"]
    updateSyncStatus_sets_never_clears [of "''offline_1_a''" "open_storage [interview_failed]"
      interview_failed env_ok Syncing None]
  by (simp add: sample_defs storage_defs message_only_on_error_def)

section \<open>Records that a drain does not take\<close>

lemma getPendingInterviews_result:
  "fst (getPendingInterviews e limit s) = Resolved xs \<Longrightarrow>
   xs = take limit (index_getAll Pending (interviews s))"
  by (auto simp: getPendingInterviews_def await_def initialize_def split: if_splits)

lemma drains_keep:
  assumes "sync_status (metadata v) \<noteq> Pending"
  shows "store_ok (interviews m) \<Longrightarrow> store_get k (interviews m) = Some v \<Longrightarrow>
         store_get k (interviews (drains runs m)) = Some v"
proof (induction runs arbitrary: m)
  case Nil
  then show ?case by simp
next
  case (Cons run runs)
  obtain e bs where run: "run = (e, bs)" by (cases run)
  have "store_ok (interviews (snd (syncPendingData e bs m)))"
    using Cons.prems(1) by (rule syncPendingData_store_ok)
  moreover have "store_get k (interviews (snd (syncPendingData e bs m))) = Some v"
    using Cons.prems assms by (rule syncPendingData_keeps(1))
  ultimately show ?case using Cons.IH run by simp
qed

lemma forcSync_keeps:
  assumes "store_ok (interviews m)" and "store_get k (interviews m) = Some v"
    and "sync_status (metadata v) \<noteq> Pending"
  shows "store_get k (interviews (snd (forcSync e m))) = Some v"
  using syncPendingData_keeps(1)[of "m\<lparr>isSyncing := False\<rparr>" k v e 10] assms
  by (simp add: forcSync_def)

text \<open>
  Claim C1 says that a record left in \<^verbatim>\<open>error\<close> by a failed drain is returned by the next
  \<^verbatim>\<open>getPendingInterviews\<close> and uploaded again. It is not: after a drain whose upload
  failed, the record is in \<^verbatim>\<open>error\<close>, the list of pending records is empty, and the
  next drain, with a working remote API, changes nothing and sends nothing.
\<close>

theorem failed_record_is_not_listed_again:
  "map (sync_status \<circ> metadata)
     (interviews (snd (syncPendingData env_partial 10 (queue [interview_a])))) = [Error]
   \<and> fst (getPendingInterviews env_ok 50 (snd (syncPendingData env_partial 10 (queue [interview_a]))))
       = Resolved []
   \<and> snd (syncPendingData env_ok 10 (snd (syncPendingData env_partial 10 (queue [interview_a]))))
       = snd (syncPendingData env_partial 10 (queue [interview_a]))"
  unfolding drain_partial_a
  by (simp add: sample_defs storage_defs drain_defs)

text \<open>
  Claim C1, amended. \<^verbatim>\<open>getPendingInterviews\<close> asks the index for the status
  \<^verbatim>\<open>pending\<close> only, so a record in \<^verbatim>\<open>error\<close> is not in its result, and the drain that
  the scheduler starts (\<^verbatim>\<open>syncPendingData()\<close>, batches of 10) sends no remote call for the
  record and leaves it as it is: nothing retries it without the user.
\<close>

theorem error_records_are_not_retried_automatically:
  assumes "store_ok (interviews m)" and "store_get k (interviews m) = Some v"
    and "sync_status (metadata v) = Error"
  shows "(\<forall>xs. fst (getPendingInterviews e limit m) = Resolved xs \<longrightarrow> k \<notin> iv_id ` set xs)
       \<and> store_get k (interviews (snd (syncPendingData e' 10 m))) = Some v
       \<and> filter (\<lambda>c. call_record c = k) (calls (snd (syncPendingData e' 10 m)))
           = filter (\<lambda>c. call_record c = k) (calls m)"
proof -
  have np: "sync_status (metadata v) \<noteq> Pending" using assms(3) by simp
  have "\<forall>xs. fst (getPendingInterviews e limit m) = Resolved xs \<longrightarrow> k \<notin> iv_id ` set xs"
    using not_pending_key[OF assms(1,2) np, of limit] getPendingInterviews_result[of e limit m]
    by blast
  then show ?thesis
    using syncPendingData_keeps[OF assms(1,2) np, of e' 10] by simp
qed

theorem error_records_are_not_retried_automatically_witness:
  "store_ok (interviews (open_queue [interview_failed])) \<and>
   store_get ''offline_1_a'' (interviews (open_queue [interview_failed])) = Some interview_failed \<and>
   sync_status (metadata interview_failed) = Error \<and>
   fst (getPendingInterviews env_ok 50 (open_queue [interview_failed])) = Resolved [] \<and>
   store_get ''offline_1_a'' (interviews (snd (syncPendingData env_ok 10 (open_queue [interview_failed]))))
     = Some interview_failed \<and>
   calls (snd (syncPendingData env_ok 10 (open_queue [interview_failed]))) = []"
  using error_records_are_not_retried_automatically [of "open_queue [interview_failed]"
      "''offline_1_a''" interview_failed env_ok 50 env_ok]
  by (simp add: sample_defs storage_defs drain_defs store_ok_def)

text \<open>
  Claim C9. A record in \<^verbatim>\<open>syncing\<close> is never returned by \<^verbatim>\<open>getPendingInterviews\<close>,
  and any number of drains, in any environments, leaves it in the store unchanged.
\<close>

theorem syncing_records_stay_forever:
  assumes "store_ok (interviews m)" and "store_get k (interviews m) = Some v"
    and "sync_status (metadata v) = Syncing"
  shows "(\<forall>xs. fst (getPendingInterviews e limit (drains runs m)) = Resolved xs \<longrightarrow> k \<notin> iv_id ` set xs)
       \<and> store_get k (interviews (drains runs m)) = Some v"
proof
  have np: "sync_status (metadata v) \<noteq> Pending" using assms(3) by simp
  have ok: "store_ok (interviews (drains runs m))" using assms(1)
  proof (induction runs arbitrary: m)
    case (Cons run runs)
    then show ?case by (cases run) (simp add: syncPendingData_store_ok)
  qed simp
  show keep: "store_get k (interviews (drains runs m)) = Some v"
    using np assms(1,2) by (rule drains_keep)
  show "\<forall>xs. fst (getPendingInterviews e limit (drains runs m)) = Resolved xs \<longrightarrow> k \<notin> iv_id ` set xs"
    using not_pending_key[OF ok keep np, of limit]
      getPendingInterviews_result[of e limit "drains runs m"]
    by blast
qed

theorem syncing_records_stay_forever_witness:
  "store_ok (interviews (queue [interview_stuck])) \<and>
   store_get ''offline_1_a'' (interviews (queue [interview_stuck])) = Some interview_stuck \<and>
   sync_status (metadata interview_stuck) = Syncing \<and>
   fst (getPendingInterviews env_ok 50 (drains [(env_ok, 10), (env_partial, 10)] (queue [interview_stuck])))
     = Resolved [] \<and>
   store_get ''offline_1_a'' (interviews (drains [(env_ok, 10), (env_partial, 10)] (queue [interview_stuck])))
     = Some interview_stuck"
  using syncing_records_stay_forever [of "queue [interview_stuck]" "''offline_1_a''"
      interview_stuck env_ok 50 "[(env_ok, 10), (env_partial, 10)]"]
  by (simp add: sample_defs storage_defs drain_defs store_ok_def)

section \<open>Records that a drain takes\<close>








text \<open>
  Claim C3 says that after a first drain in which the interview is created and the
  responses are refused, the record is in \<^verbatim>\<open>error\<close> with a message and
  \<^verbatim>\<open>sync_attempts\<close> 1. The status and the message are as claimed, the counter is 2:
  the update to \<^verbatim>\<open>syncing\<close> counts as well as the update to \<^verbatim>\<open>error\<close>.
\<close>

theorem partial_failure_counts_two_attempts:
  "map (sync_status \<circ> metadata)
     (interviews (snd (syncPendingData env_partial 10 (queue [interview_a])))) = [Error]
   \<and> map (error_message \<circ> metadata)
     (interviews (snd (syncPendingData env_partial 10 (queue [interview_a]))))
       = [Some ''Falha no upload da entrevista'']
   \<and> map (sync_attempts \<circ> metadata)
     (interviews (snd (syncPendingData env_partial 10 (queue [interview_a])))) = [2]
   \<and> map (sync_attempts \<circ> metadata)
     (interviews (snd (syncPendingData env_partial 10 (queue [interview_a])))) \<noteq> [1]"
  unfolding drain_partial_a by (simp add: sample_defs)

text \<open>
  Claim C3, amended. In a drain that runs from its first step to its last while every
  IndexedDB request succeeds, a pending record whose first remote call succeeds and whose
  second fails ends in \<^verbatim>\<open>error\<close>, with the upload-failure message, and its counter,
  when it was below \<open>2^53 - 1\<close>, is two more than before: 2 for a new record.
\<close>

theorem partial_failure_marks_error:
  assumes "no_faults e" and "store_ok (interviews m)" and "\<not> isSyncing m" and "online e"
    and "0 < batchSize"
    and "iv \<in> set (take 50 (index_getAll Pending (interviews m)))"
    and "create_interview e iv = Created createdId"
    and "post_responses e createdId iv \<noteq> FetchOk"
    and "sync_attempts (metadata iv) < 9007199254740991"
  shows "map_option (\<lambda>v. (sync_status (metadata v), error_message (metadata v),
             sync_attempts (metadata v)))
           (store_get (iv_id iv) (interviews (snd (syncPendingData e batchSize m))))
         = Some (Error, Some (message UploadFailed), sync_attempts (metadata iv) + 2)"
proof -
  have "\<not> both_calls_succeed e iv" using assms(7,8) by (simp add: both_calls_succeed_def)
  then have "store_get (iv_id iv) (interviews (snd (syncPendingData e batchSize m)))
      = Some (stamp e Error (Some (message UploadFailed)) (stamp e Syncing None iv))"
    using syncPendingData_no_faults(2)[OF assms(1-5)] assms(6) by (simp add: settled_def)
  then show ?thesis using assms(9) by (simp add: stamp_def truthy_def plus_one_def)
qed

theorem partial_failure_marks_error_witness:
  "no_faults env_partial \<and> store_ok (interviews (queue [interview_a])) \<and>
   \<not> isSyncing (queue [interview_a]) \<and> online env_partial \<and> (0::nat) < 10 \<and>
   interview_a \<in> set (take 50 (index_getAll Pending (interviews (queue [interview_a])))) \<and>
   create_interview env_partial interview_a = Created ''1'' \<and>
   post_responses env_partial ''1'' interview_a \<noteq> FetchOk \<and>
   sync_attempts (metadata interview_a) < 9007199254740991 \<and>
   map_option (\<lambda>v. (sync_status (metadata v), error_message (metadata v),
             sync_attempts (metadata v)))
     (store_get (iv_id interview_a)
        (interviews (snd (syncPendingData env_partial 10 (queue [interview_a])))))
     = Some (Error, Some (message UploadFailed), sync_attempts (metadata interview_a) + 2)"
  using partial_failure_marks_error [of env_partial "queue [interview_a]" 10 interview_a "''1''"]
  by (simp add: sample_defs no_faults_def store_ok_def index_getAll_def)







section \<open>The single-flight guard\<close>


lemma isSyncing_sync_batches: "isSyncing (snd (sync_batches e bs pending i s)) = isSyncing s"
  using untouched_sync_batches[of i pending s e bs] by (simp add: untouched_def)

lemma syncPendingData_unsettled:
  assumes "fst (syncPendingData e bs m) = NeverSettles"
  shows "isSyncing (snd (syncPendingData e bs m))"
proof (cases "isSyncing m \<or> \<not> online e")
  case True
  then show ?thesis using assms by (simp add: syncPendingData_refused)
next
  case go: False
  show ?thesis
  proof (cases "(\<not> db m \<and> idb_fails e Open) \<or> idb_fails e GetAllPending")
    case True
    then show ?thesis using syncPendingData_store_fault(3)[of m e bs] go assms by simp
  next
    case False
    let ?pend = "take 50 (index_getAll Pending (interviews m))"
    obtain q s where run: "sync_batches e bs ?pend 0 (opened m) = (q, s)"
      by (cases "sync_batches e bs ?pend 0 (opened m)")
    have "isSyncing s" using isSyncing_sync_batches[of e bs ?pend 0 "opened m"] run by simp
    moreover have "syncPendingData e bs m =
     (case q of
        Resolved _ \<Rightarrow> (Resolved (result_of s), (manager_of s)\<lparr>isSyncing := False\<rparr>)
      | Rejected err \<Rightarrow>
          (Resolved (result_of (s\<lparr>details := details s @ [general_error]\<rparr>)),
           (manager_of (s\<lparr>details := details s @ [general_error]\<rparr>))\<lparr>isSyncing := False\<rparr>)
      | NeverSettles \<Rightarrow> (NeverSettles, manager_of s))"
      using go False by (intro syncPendingData_run[OF _ _ _ _ run]) auto
    ultimately show ?thesis using assms by (cases q) (simp_all add: manager_of_def)
  qed
qed



section \<open>Stopping the controller\<close>

lemma stop_keeps_listeners:
  "StopArrow \<notin> set (listeners w) \<Longrightarrow> listeners (stop w) = listeners w"
  by (simp add: stop_def removeEventListener_def clearTimeout_def Let_def remove1_idem
      split: option.splits)

text \<open>
  Claim C10 says that after \<^verbatim>\<open>stop\<close> no trigger fires any more. With the fallback
  interval, \<^verbatim>\<open>stop\<close> cancels the timers, but the \<^verbatim>\<open>online\<close> listener stays
  registered (\<^verbatim>\<open>removeEventListener\<close> is given a new function): the next \<^verbatim>\<open>online\<close>
  event starts the debounce timer, and when it expires \<^verbatim>\<open>syncPendingData\<close> is called.
\<close>

theorem stop_leaves_online_listener:
  "timers (stop (setupAutoSync fallback_timers new_window)) = []
   \<and> listeners (stop (setupAutoSync fallback_timers new_window)) = [OnlineListener]
   \<and> sync_calls (stop (setupAutoSync fallback_timers new_window)) = 0
   \<and> sync_calls (dispatch fallback_timers (TimerFires 2)
        (dispatch fallback_timers OnlineEvent
          (stop (setupAutoSync fallback_timers new_window)))) = 1"
  by (simp add: fallback_timers_def new_window_def setupAutoSync_def stop_def
      addEventListener_def removeEventListener_def setTimeout_def setInterval_def
      clearTimeout_def call_sync_def Let_def)

end
